theory Spec2Isabelle
  imports Complex_Main "HOL-Library.Sublist"
begin

section \<open>JavaScript strings\<close>

text \<open>
  A JavaScript string is a sequence of UTF-16 code units. It is modelled as a
  \<open>string\<close> (a \<open>char list\<close>), one \<open>char\<close> per code unit, for the code units below 256.
  The operations below are the methods of \<open>String.prototype\<close> that the lesson workspace
  calls, each with the semantics ECMAScript gives it on such strings.
\<close>

text \<open>
  The white space of \<open>\s\<close> and of \<open>trim()\<close> (WhiteSpace and LineTerminator) among the code
  units below 256: TAB, LF, VT, FF, CR, SPACE and NBSP.
\<close>

definition is_space :: "char \<Rightarrow> bool" where
  "is_space c =
     (c = CHR 0x09 \<or> c = CHR 0x0A \<or> c = CHR 0x0B \<or> c = CHR 0x0C \<or> c = CHR 0x0D \<or>
      c = CHR 0x20 \<or> c = CHR 0xA0)"

text \<open>\<open>s.trim()\<close>: the string without its leading and trailing white space.\<close>

definition trim :: "string \<Rightarrow> string" where
  "trim s = rev (dropWhile is_space (rev (dropWhile is_space s)))"

text \<open>
  \<open>s.startsWith(p)\<close> and \<open>s.endsWith(p)\<close>: the search string is compared with the
  code units at the start (at the end) of \<open>s\<close>; a search string longer than \<open>s\<close> gives false.
\<close>

definition startsWith :: "string \<Rightarrow> string \<Rightarrow> bool" where
  "startsWith s p = (length p \<le> length s \<and> take (length p) s = p)"

definition endsWith :: "string \<Rightarrow> string \<Rightarrow> bool" where
  "endsWith s p = (length p \<le> length s \<and> drop (length s - length p) s = p)"

text \<open>
  \<open>s.indexOf(t)\<close>: the smallest position at which \<open>t\<close> occurs in \<open>s\<close>, or \<open>-1\<close>. The
  search runs over the positions from left to right; \<open>k\<close> is the position reached.
\<close>

fun indexOf_from :: "string \<Rightarrow> string \<Rightarrow> nat \<Rightarrow> int" where
  "indexOf_from [] t k = (if t = [] then int k else - 1)"
| "indexOf_from (c # cs) t k =
     (if startsWith (c # cs) t then int k else indexOf_from cs t (Suc k))"

definition indexOf :: "string \<Rightarrow> string \<Rightarrow> int" where
  "indexOf s t = indexOf_from s t 0"

text \<open>\<open>s.includes(t)\<close> (\<open>includes\<close> is reserved in Isabelle, hence the suffix): whether \<open>t\<close> occurs in \<open>s\<close>.\<close>

definition includes_str :: "string \<Rightarrow> string \<Rightarrow> bool" where
  "includes_str s t = (indexOf s t \<noteq> - 1)"

text \<open>
  \<open>s.slice(b, e)\<close>: a negative bound counts from the end, both bounds are clamped to
  the string, and an empty range gives the empty string.
\<close>

definition slice :: "string \<Rightarrow> int \<Rightarrow> int \<Rightarrow> string" where
  "slice s b e =
     (let n = int (length s);
          lo = (if b < 0 then max (n + b) 0 else min b n);
          hi = (if e < 0 then max (n + e) 0 else min e n)
      in take (nat (hi - lo)) (drop (nat lo) s))"

text \<open>
  \<open>s.split(d)\<close> for a separator \<open>d\<close> of one code unit: the pieces between the
  occurrences of \<open>d\<close>; the empty string gives one empty piece.
\<close>

fun split :: "string \<Rightarrow> char \<Rightarrow> string list" where
  "split [] d = [[]]"
| "split (c # cs) d =
     (if c = d then [] # split cs d
      else (case split cs d of [] \<Rightarrow> [[c]] | l # ls \<Rightarrow> (c # l) # ls))"

text \<open>
  \<open>s.replace(/\s+/g, r)\<close>: every maximal run of white space is replaced by \<open>r\<close>.
\<close>

function replace_ws_runs :: "string \<Rightarrow> string \<Rightarrow> string" where
  "replace_ws_runs [] r = []"
| "replace_ws_runs (c # cs) r =
     (if is_space c then r @ replace_ws_runs (dropWhile is_space cs) r
      else c # replace_ws_runs cs r)"
  by pat_completeness auto
termination
  by (relation "measure (\<lambda>(s, r). length s)")
     (auto simp: length_dropWhile_le less_Suc_eq_le)

definition newline :: char where
  "newline = CHR 0x0A"

section \<open>Learner steps and the step filter\<close>

text \<open>
  \<open>LearnerStep\<close> of the types module: the code of the step, its explanation and the
  optional context (the line coming immediately before the step).
\<close>

record LearnerStep =
  step_code :: string
  step_explanation :: string
  step_context :: "string option"

text \<open>
  The predicate \<open>initializeLearnerMode\<close> passes to \<open>steps.filter\<close>: a step whose trimmed
  code is empty, an HTML comment or a JS/CSS comment is removed.
\<close>

definition keep_step :: "LearnerStep \<Rightarrow> bool" where
  "keep_step s =
     (let trimmed = trim (step_code s) in
      if length trimmed = 0 then False
      else if startsWith trimmed ''<!--'' \<or> endsWith trimmed ''-->'' then False
      else if startsWith trimmed ''//'' \<or> startsWith trimmed ''/*'' then False
      else True)"

definition stepFilter :: "LearnerStep list \<Rightarrow> LearnerStep list" where
  "stepFilter steps = filter keep_step steps"

section \<open>The step source and its fallback\<close>

text \<open>
  \<open>generateLearnerSteps\<close> of the Gemini service awaits the model's answer and parses it
  inside a \<open>try\<close> block; the \<open>catch\<close> block builds the steps from the lines of the
  solution code. The outcome of the \<open>try\<close> block (the request and \<open>JSON.parse\<close>) is a
  parameter: \<open>Inl e\<close> when it threw \<open>e\<close>, \<open>Inr steps\<close> when it produced \<open>steps\<close>. The
  result is \<open>Inr\<close> when the promise is fulfilled and \<open>Inl\<close> when it is rejected.
\<close>

datatype js_error = Error string

definition generateLearnerSteps ::
  "string \<Rightarrow> js_error + LearnerStep list \<Rightarrow> js_error + LearnerStep list" where
  "generateLearnerSteps solution attempt =
     (case attempt of
        Inr steps \<Rightarrow> Inr steps
      | Inl e \<Rightarrow>
          Inr (map (\<lambda>l. \<lparr>step_code = l, step_explanation = ''Type this line.'',
                          step_context = None\<rparr>)
                 (filter (\<lambda>l. length (trim l) > 0) (split solution newline))))"

section \<open>The lesson workspace\<close>

text \<open>
  The fields of \<open>Lesson\<close> that learner mode reads, and the state of the
  \<open>LessonWorkspace\<close> component that learner mode reads and writes. \<open>innerWidth\<close> is
  \<open>window.innerWidth\<close>. The timers that clear the feedback text and the loading flag are
  presentation and are left out.
\<close>

record Lesson =
  lesson_id :: string
  solutionCode :: string
  lesson_steps :: "LearnerStep list option"

datatype MobileTab = Guide | Code | Preview

record workspace =
  code :: string
  learnerSteps :: "LearnerStep list"
  currentStepIndex :: nat
  learnerModeActive :: bool
  learnerFeedback :: string
  checkResult :: "(bool \<times> string) option"
  highlightLine :: "int option"
  mobileTab :: MobileTab
  innerWidth :: nat

text \<open>A call of the \<open>onComplete\<close> property: the lesson id and the final code.\<close>

datatype callback = OnComplete string string

text \<open>
  \<open>initializeLearnerMode\<close>: the steps of the lesson when it has any, the generated steps
  otherwise; the comment-only and empty steps are filtered out and the index is reset.
  A rejected generation leaves the state as it is.
\<close>

definition initializeLearnerMode ::
  "Lesson \<Rightarrow> js_error + LearnerStep list \<Rightarrow> workspace \<Rightarrow> js_error + workspace" where
  "initializeLearnerMode lesson attempt w =
     (case (case lesson_steps lesson of
              Some ss \<Rightarrow> if length ss > 0 then Inr ss
                         else generateLearnerSteps (solutionCode lesson) attempt
            | None \<Rightarrow> generateLearnerSteps (solutionCode lesson) attempt) of
        Inl e \<Rightarrow> Inl e
      | Inr steps \<Rightarrow>
          Inr (w\<lparr>learnerSteps := stepFilter steps, currentStepIndex := 0,
                 learnerFeedback := []\<rparr>))"

subsection \<open>The insertion locator\<close>

text \<open>
  \<open>getInsertionLineIndex\<close>: \<open>None\<close> is \<open>null\<close> (there is no current step). The body after
  the lookup of the current step is \<open>insertionLine\<close>, a function of the buffer and the
  step: a missing or empty context skips the context branch, and a context that is not
  found falls through to the marker. None of the string methods it calls throws on a
  string, so it has no error result.
\<close>

definition insertionLine :: "string \<Rightarrow> LearnerStep \<Rightarrow> int" where
  "insertionLine buf step =
     (if buf = [] then 0
      else
        case (case step_context step of
                None \<Rightarrow> None
              | Some ctx \<Rightarrow>
                  if ctx = [] then None
                  else
                    let idx = indexOf buf (trim ctx)
                    in if idx \<noteq> - 1
                       then let upToContext = slice buf 0 (idx + int (length ctx))
                            in Some (int (length (split upToContext newline)))
                       else None) of
          Some line \<Rightarrow> line
        | None \<Rightarrow>
            let markerIdx = indexOf buf ''<!-- Write code here -->''
            in if markerIdx \<noteq> - 1
               then int (length (split (slice buf 0 markerIdx) newline)) - 1
               else int (length (split buf newline)))"

definition getInsertionLineIndex :: "workspace \<Rightarrow> int option" where
  "getInsertionLineIndex w =
     (if currentStepIndex w < length (learnerSteps w)
      then Some (insertionLine (code w) (learnerSteps w ! currentStepIndex w))
      else None)"

subsection \<open>The scroll target\<close>

text \<open>
  \<open>Math.max(0, top - (containerHeight / 2))\<close> with \<open>top = line * LINE_HEIGHT + 24\<close>. The
  division is the division of JavaScript numbers: the half of an odd height is not an
  integer, so the value is a rational number (an integer or a half, which a double holds
  exactly).
\<close>

definition LINE_HEIGHT :: int where
  "LINE_HEIGHT = 24"

definition scrollTarget :: "int \<Rightarrow> int \<Rightarrow> rat" where
  "scrollTarget line containerHeight =
     (let top = line * LINE_HEIGHT + 24
      in max 0 (of_int top - of_int containerHeight / 2))"

text \<open>
  \<open>handleLocateInsertion\<close>: the \<open>scrollTo\<close> command, if any. \<open>containerHeight\<close> is
  \<open>None\<close> when the scroll container is not mounted.
\<close>

definition handleLocateInsertion :: "workspace \<Rightarrow> int option \<Rightarrow> rat option" where
  "handleLocateInsertion w containerHeight =
     (case (getInsertionLineIndex w, containerHeight) of
        (Some line, Some h) \<Rightarrow> Some (scrollTarget line h)
      | _ \<Rightarrow> None)"

text \<open>
  The effect that runs when the step index or the learner mode changes: it sets the
  highlighted line and scrolls to it.
\<close>

definition scroll_effect :: "workspace \<Rightarrow> int option \<Rightarrow> workspace \<times> rat option" where
  "scroll_effect w containerHeight =
     (if learnerModeActive w
      then (w\<lparr>highlightLine := getInsertionLineIndex w\<rparr>, handleLocateInsertion w containerHeight)
      else (w\<lparr>highlightLine := None\<rparr>, None))"

subsection \<open>Real-time validation\<close>

text \<open>
  The effect that runs after every change of the buffer (and of the step index): one
  evaluation of the buffer against the current step. It returns the new state and the
  calls of \<open>onComplete\<close> it made. The state update \<open>prev => prev + 1\<close> is applied to
  the index the evaluation read. The current step of an index below the length is an
  object, so the test \<open>!currentTarget\<close> never holds there.
\<close>

definition validation_effect :: "Lesson \<Rightarrow> workspace \<Rightarrow> workspace \<times> callback list" where
  "validation_effect lesson w =
     (if \<not> learnerModeActive w \<or> currentStepIndex w \<ge> length (learnerSteps w) then (w, [])
      else
        let currentTarget = learnerSteps w ! currentStepIndex w;
            normalizedCode = replace_ws_runs (code w) [];
            normalizedTarget = replace_ws_runs (step_code currentTarget) []
        in if includes_str normalizedCode normalizedTarget
           then
             let w1 = w\<lparr>currentStepIndex := currentStepIndex w + 1,
                        learnerFeedback := ''Excellent! Next step unlocked.''\<rparr>
             in if currentStepIndex w + 1 \<ge> length (learnerSteps w)
                then (w1\<lparr>checkResult := Some (True, ''You completed all steps in Learner Mode!''),
                         mobileTab := (if innerWidth w < 768 then Preview else mobileTab w)\<rparr>,
                      [OnComplete (lesson_id lesson) (code w)])
                else (w1, [])
           else (w, []))"

text \<open>
  A sequence of buffer changes: each sets the buffer and is followed by one evaluation.
  The calls of \<open>onComplete\<close> are collected in order. An evaluation that React runs again
  on the same buffer (after the index changed) is a repeated buffer in the sequence.
\<close>

fun evaluations :: "Lesson \<Rightarrow> workspace \<Rightarrow> string list \<Rightarrow> workspace \<times> callback list" where
  "evaluations lesson w [] = (w, [])"
| "evaluations lesson w (b # bs) =
     (let (w1, cs1) = validation_effect lesson (w\<lparr>code := b\<rparr>);
          (w2, cs2) = evaluations lesson w1 bs
      in (w2, cs1 @ cs2))"

section \<open>Example data\<close>

text \<open>
  A lesson, a filtered step list and a workspace state on it (with the buffer and the
  step index as parameters), for the concrete instances of the theorems below.
\<close>

definition example_lesson :: Lesson where
  "example_lesson =
     \<lparr>lesson_id = ''lesson-1'',
      solutionCode = ''h1 {\<newline>  color: red;\<newline>  font-size: 2em;\<newline>}'',
      lesson_steps = None\<rparr>"

definition example_steps :: "LearnerStep list" where
  "example_steps =
     [\<lparr>step_code = ''color: red;'', step_explanation = ''Type the colour.'', step_context = None\<rparr>,
      \<lparr>step_code = ''font-size: 2em;'', step_explanation = ''Type the size.'',
         step_context = Some ''color: red;''\<rparr>]"

definition example_workspace :: "string \<Rightarrow> nat \<Rightarrow> workspace" where
  "example_workspace buf i =
     \<lparr>code = buf, learnerSteps = example_steps, currentStepIndex = i,
      learnerModeActive = True, learnerFeedback = [], checkResult = None,
      highlightLine = None, mobileTab = Code, innerWidth = 1024\<rparr>"

lemmas string_defs = is_space_def trim_def startsWith_def endsWith_def indexOf_def includes_str_def
  slice_def newline_def
lemmas example_defs = example_lesson_def example_steps_def example_workspace_def

section \<open>Properties of the string operations\<close>

lemma startsWith_prefix: "startsWith s p \<longleftrightarrow> prefix p s"
  by (auto simp: startsWith_def prefix_def min_def) (metis append_eq_conv_conj)

lemma endsWith_suffix: "endsWith s p \<longleftrightarrow> suffix p s"
proof
  assume "endsWith s p"
  then have "s = take (length s - length p) s @ p"
    by (metis append_take_drop_id endsWith_def)
  then show "suffix p s"
    by (metis suffixI)
next
  assume "suffix p s"
  then obtain q where "s = q @ p"
    by (auto simp: suffix_def)
  then show "endsWith s p"
    by (simp add: endsWith_def)
qed

lemma filter_dropWhile_not: "filter (\<lambda>c. \<not> P c) (dropWhile P xs) = filter (\<lambda>c. \<not> P c) xs"
  by (induction xs) auto

lemma replace_ws_runs_filter: "replace_ws_runs s [] = filter (\<lambda>c. \<not> is_space c) s"
  by (induction s "[] :: string" rule: replace_ws_runs.induct) (auto simp: filter_dropWhile_not)

lemma indexOf_from_sublist: "indexOf_from s t k \<noteq> - 1 \<longleftrightarrow> sublist t s"
proof (induction s arbitrary: k)
  case Nil
  show ?case by simp
next
  case (Cons c cs)
  show ?case
  proof (cases "startsWith (c # cs) t")
    case True
    then have "sublist t (c # cs)"
      by (simp add: startsWith_prefix prefix_imp_sublist)
    with True show ?thesis by simp
  next
    case False
    then have "sublist t (c # cs) \<longleftrightarrow> sublist t cs"
      by (simp add: startsWith_prefix sublist_Cons_right)
    with False Cons show ?thesis by simp
  qed
qed

lemma includes_str_sublist: "includes_str s t \<longleftrightarrow> sublist t s"
  by (simp add: includes_str_def indexOf_def indexOf_from_sublist)

lemma indexOf_from_range: "indexOf_from s t k = - 1 \<or> (int k \<le> indexOf_from s t k \<and> indexOf_from s t k \<le> int (k + length s))"
  by (induction s arbitrary: k) (auto, force+)

lemma indexOf_from_leftmost:
  "indexOf_from s t k = int (k + i) \<longleftrightarrow>
     i \<le> length s \<and> prefix t (drop i s) \<and> (\<forall>j<i. \<not> prefix t (drop j s))"
proof (induction s arbitrary: k i)
  case Nil
  show ?case by auto
next
  case (Cons c cs)
  show ?case
  proof (cases "startsWith (c # cs) t")
    case True
    then have p: "prefix t (c # cs)" by (simp add: startsWith_prefix)
    show ?thesis
    proof (cases i)
      case 0
      with True p show ?thesis by simp
    next
      case (Suc i')
      with True p show ?thesis by auto
    qed
  next
    case False
    then have p: "\<not> prefix t (c # cs)" by (simp add: startsWith_prefix)
    show ?thesis
    proof (cases i)
      case 0
      from indexOf_from_range [of cs t "Suc k"] have "indexOf_from cs t (Suc k) \<noteq> int k" by auto
      with False p 0 show ?thesis by simp
    next
      case (Suc i')
      have "indexOf_from (c # cs) t k = int (k + i) \<longleftrightarrow> indexOf_from cs t (Suc k) = int (Suc k + i')"
        using False Suc by simp
      also have "\<dots> \<longleftrightarrow> i' \<le> length cs \<and> prefix t (drop i' cs) \<and> (\<forall>j<i'. \<not> prefix t (drop j cs))"
        by (rule Cons.IH)
      also have "\<dots> \<longleftrightarrow> i \<le> length (c # cs) \<and> prefix t (drop i (c # cs)) \<and> (\<forall>j<i. \<not> prefix t (drop j (c # cs)))"
        using Suc p by (auto simp: less_Suc_eq_0_disj)
      finally show ?thesis .
    qed
  qed
qed

lemma length_split: "length (split s d) = Suc (count_list s d)"
  by (induction s) (auto split: list.splits)

lemma split_not_Nil: "split s d \<noteq> []"
  by (induction s) (auto split: list.splits)

section \<open>Properties of the real-time validation\<close>

lemma validation_effect_steps [simp]:
  "learnerSteps (fst (validation_effect lesson w)) = learnerSteps w"
  by (simp add: validation_effect_def Let_def)

lemma validation_effect_index:
  "currentStepIndex (fst (validation_effect lesson w)) =
     (if learnerModeActive w \<and> currentStepIndex w < length (learnerSteps w) \<and>
         includes_str (replace_ws_runs (code w) [])
           (replace_ws_runs (step_code (learnerSteps w ! currentStepIndex w)) [])
      then currentStepIndex w + 1 else currentStepIndex w)"
  by (simp add: validation_effect_def Let_def)

lemma validation_effect_callbacks:
  "snd (validation_effect lesson w) =
     (if currentStepIndex w < length (learnerSteps w) \<and>
         currentStepIndex (fst (validation_effect lesson w)) = length (learnerSteps w)
      then [OnComplete (lesson_id lesson) (code w)] else [])"
  by (auto simp: validation_effect_def Let_def)

lemma validation_effect_terminal:
  "length (learnerSteps w) \<le> currentStepIndex w \<Longrightarrow> validation_effect lesson w = (w, [])"
  by (simp add: validation_effect_def)

lemma evaluations_steps [simp]:
  "learnerSteps (fst (evaluations lesson w bufs)) = learnerSteps w"
proof (induction bufs arbitrary: w)
  case Nil
  show ?case by simp
next
  case (Cons b bs)
  have "learnerSteps (fst (evaluations lesson (fst (validation_effect lesson (w\<lparr>code := b\<rparr>))) bs)) = learnerSteps w"
    by (simp add: Cons.IH)
  then show ?case
    by (simp add: split_beta)
qed

lemma evaluations_Cons_fst:
  "fst (evaluations lesson w (b # bs)) =
     fst (evaluations lesson (fst (validation_effect lesson (w\<lparr>code := b\<rparr>))) bs)"
  by (simp add: split_beta)

lemma evaluations_Cons_snd:
  "snd (evaluations lesson w (b # bs)) =
     snd (validation_effect lesson (w\<lparr>code := b\<rparr>)) @
     snd (evaluations lesson (fst (validation_effect lesson (w\<lparr>code := b\<rparr>))) bs)"
  by (simp add: split_beta)

lemma evaluations_index_mono:
  "currentStepIndex w \<le> currentStepIndex (fst (evaluations lesson w bufs))"
proof (induction bufs arbitrary: w)
  case Nil
  show ?case by simp
next
  case (Cons b bs)
  have "currentStepIndex w \<le> currentStepIndex (fst (validation_effect lesson (w\<lparr>code := b\<rparr>)))"
    by (simp add: validation_effect_index)
  also have "\<dots> \<le> currentStepIndex (fst (evaluations lesson (fst (validation_effect lesson (w\<lparr>code := b\<rparr>))) bs))"
    by (rule Cons.IH)
  finally show ?case
    by (simp only: evaluations_Cons_fst)
qed

lemma evaluations_index_upper:
  "currentStepIndex (fst (evaluations lesson w bufs)) \<le> currentStepIndex w + length bufs"
proof (induction bufs arbitrary: w)
  case Nil
  show ?case by simp
next
  case (Cons b bs)
  let ?w1 = "fst (validation_effect lesson (w\<lparr>code := b\<rparr>))"
  have a: "currentStepIndex (fst (evaluations lesson ?w1 bs)) \<le> currentStepIndex ?w1 + length bs"
    by (rule Cons.IH)
  have b: "currentStepIndex ?w1 \<le> currentStepIndex w + 1"
    by (simp add: validation_effect_index)
  have "currentStepIndex (fst (evaluations lesson ?w1 bs)) \<le> currentStepIndex w + length (b # bs)"
    using a b by simp
  then show ?case
    by (simp only: evaluations_Cons_fst)
qed

lemma evaluations_terminal:
  "length (learnerSteps w) \<le> currentStepIndex w \<Longrightarrow>
   currentStepIndex (fst (evaluations lesson w bufs)) = currentStepIndex w \<and>
   snd (evaluations lesson w bufs) = []"
proof (induction bufs arbitrary: w)
  case Nil
  show ?case by simp
next
  case (Cons b bs)
  let ?w0 = "w\<lparr>code := b\<rparr>"
  from Cons.prems have t: "validation_effect lesson ?w0 = (?w0, [])"
    by (simp add: validation_effect_terminal)
  from Cons.prems have "length (learnerSteps ?w0) \<le> currentStepIndex ?w0"
    by simp
  from Cons.IH [OF this] t show ?case
    by (simp add: split_beta)
qed

lemma evaluations_completions:
  "length (snd (evaluations lesson w bufs)) =
     (if currentStepIndex w < length (learnerSteps w) \<and>
         currentStepIndex (fst (evaluations lesson w bufs)) = length (learnerSteps w)
      then 1 else 0)"
proof (induction bufs arbitrary: w)
  case Nil
  show ?case by simp
next
  case (Cons b bs)
  let ?w0 = "w\<lparr>code := b\<rparr>"
  let ?w1 = "fst (validation_effect lesson ?w0)"
  let ?N = "length (learnerSteps w)"
  have steps1: "learnerSteps ?w1 = learnerSteps w"
    by simp
  have ih: "length (snd (evaluations lesson ?w1 bs)) =
     (if currentStepIndex ?w1 < ?N \<and> currentStepIndex (fst (evaluations lesson ?w1 bs)) = ?N
      then 1 else 0)"
    using Cons.IH [of ?w1] by (simp only: steps1)
  have cb: "length (snd (validation_effect lesson ?w0)) =
     (if currentStepIndex w < ?N \<and> currentStepIndex ?w1 = ?N then 1 else 0)"
    by (simp add: validation_effect_callbacks)
  have step: "currentStepIndex ?w1 = currentStepIndex w \<or> currentStepIndex ?w1 = currentStepIndex w + 1"
    by (simp add: validation_effect_index)
  have guard: "currentStepIndex ?w1 \<noteq> currentStepIndex w \<Longrightarrow> currentStepIndex w < ?N"
    by (simp add: validation_effect_index split: if_splits)
  have stable: "?N \<le> currentStepIndex ?w1 \<Longrightarrow>
     currentStepIndex (fst (evaluations lesson ?w1 bs)) = currentStepIndex ?w1"
    using evaluations_terminal [of ?w1 lesson bs] by (simp only: steps1)
  show ?case
  proof (cases "currentStepIndex ?w1 < ?N")
    case True
    with step have "currentStepIndex w < ?N" by auto
    with True ih cb show ?thesis
      by (simp add: evaluations_Cons_fst evaluations_Cons_snd del: evaluations.simps)
  next
    case False
    then have ge: "?N \<le> currentStepIndex ?w1" by simp
    from stable [OF ge] have fin: "currentStepIndex (fst (evaluations lesson w (b # bs))) = currentStepIndex ?w1"
      by (simp only: evaluations_Cons_fst)
    from False ih have z: "length (snd (evaluations lesson ?w1 bs)) = 0" by simp
    show ?thesis
    proof (cases "currentStepIndex w < ?N")
      case True
      with ge step have "currentStepIndex ?w1 = ?N" by auto
      with True cb z fin show ?thesis
        by (simp add: evaluations_Cons_snd del: evaluations.simps)
    next
      case False
      with guard have "currentStepIndex ?w1 = currentStepIndex w" by auto
      with False cb z fin show ?thesis
        by (simp add: evaluations_Cons_snd del: evaluations.simps)
    qed
  qed
qed

section \<open>The step filter\<close>

text \<open>
  C2. Filtering is idempotent: filtering a filtered step list gives the same list.
\<close>

theorem stepFilter_idempotent: "stepFilter (stepFilter steps) = stepFilter steps"
  by (simp add: stepFilter_def)

lemma keep_step_iff:
  "keep_step s \<longleftrightarrow>
     length (trim (step_code s)) \<noteq> 0 \<and>
     \<not> prefix ''<!--'' (trim (step_code s)) \<and>
     \<not> suffix ''-->'' (trim (step_code s)) \<and>
     \<not> prefix ''//'' (trim (step_code s)) \<and>
     \<not> prefix ''/*'' (trim (step_code s))"
  by (simp only: keep_step_def Let_def startsWith_prefix endsWith_suffix) auto

text \<open>
  C3. A step survives the filter exactly when its trimmed code is not empty, does not
  start with \<open><!--\<close>, does not end with \<open>-->\<close>, and does not start with \<open>//\<close> or \<open>/*\<close>;
  the surviving steps keep their order (the result is a subsequence of the input).
\<close>

theorem stepFilter_survivors:
  "stepFilter steps =
     filter (\<lambda>s. length (trim (step_code s)) \<noteq> 0 \<and>
                 \<not> prefix ''<!--'' (trim (step_code s)) \<and>
                 \<not> suffix ''-->'' (trim (step_code s)) \<and>
                 \<not> prefix ''//'' (trim (step_code s)) \<and>
                 \<not> prefix ''/*'' (trim (step_code s))) steps \<and>
   subseq (stepFilter steps) steps"
proof -
  have "keep_step = (\<lambda>s. length (trim (step_code s)) \<noteq> 0 \<and>
                 \<not> prefix ''<!--'' (trim (step_code s)) \<and>
                 \<not> suffix ''-->'' (trim (step_code s)) \<and>
                 \<not> prefix ''//'' (trim (step_code s)) \<and>
                 \<not> prefix ''/*'' (trim (step_code s)))"
    by (rule ext) (rule keep_step_iff)
  then show ?thesis
    by (simp add: stepFilter_def)
qed

theorem stepFilter_survivors_witness:
  "stepFilter
     [\<lparr>step_code = ''<!-- comment -->'', step_explanation = ''a'', step_context = None\<rparr>,
      \<lparr>step_code = ''  <p>Hi</p>'', step_explanation = ''b'', step_context = None\<rparr>,
      \<lparr>step_code = [], step_explanation = ''c'', step_context = None\<rparr>,
      \<lparr>step_code = '' // note'', step_explanation = ''d'', step_context = None\<rparr>,
      \<lparr>step_code = ''x = 1; /* one */'', step_explanation = ''e'', step_context = None\<rparr>] =
     [\<lparr>step_code = ''  <p>Hi</p>'', step_explanation = ''b'', step_context = None\<rparr>,
      \<lparr>step_code = ''x = 1; /* one */'', step_explanation = ''e'', step_context = None\<rparr>]"
proof -
  have t: "trim ''<!-- comment -->'' = ''<!-- comment -->''" "trim ''  <p>Hi</p>'' = ''<p>Hi</p>''"
    "trim [] = []" "trim '' // note'' = ''// note''" "trim ''x = 1; /* one */'' = ''x = 1; /* one */''"
    by (simp_all add: trim_def is_space_def)
  show ?thesis
    using stepFilter_survivors [of
     "[\<lparr>step_code = ''<!-- comment -->'', step_explanation = ''a'', step_context = None\<rparr>,
      \<lparr>step_code = ''  <p>Hi</p>'', step_explanation = ''b'', step_context = None\<rparr>,
      \<lparr>step_code = [], step_explanation = ''c'', step_context = None\<rparr>,
      \<lparr>step_code = '' // note'', step_explanation = ''d'', step_context = None\<rparr>,
      \<lparr>step_code = ''x = 1; /* one */'', step_explanation = ''e'', step_context = None\<rparr>]"]
    by (simp add: t suffix_def)
qed

text \<open>
  \<open>initializeLearnerMode\<close> always succeeds (the step source falls back instead of
  rejecting), and the step list it stores is a filtered one, with the index at 0.
\<close>

lemma initializeLearnerMode_filtered:
  "\<exists>w'. initializeLearnerMode lesson attempt w = Inr w' \<and>
     currentStepIndex w' = 0 \<and> list_all keep_step (learnerSteps w') \<and>
     filter keep_step (learnerSteps w') = learnerSteps w'"
  by (cases attempt; cases "lesson_steps lesson")
     (auto simp: initializeLearnerMode_def generateLearnerSteps_def stepFilter_def list_all_iff)

section \<open>The progress tracker\<close>

text \<open>
  C1. In a non-terminal state of an active learner mode, one evaluation moves the step
  index to the next step exactly when the buffer without its white space contains the
  code of the current step without its white space; otherwise the index stays.
\<close>

theorem validation_advances_iff_contains:
  assumes "learnerModeActive w" and "currentStepIndex w < length (learnerSteps w)"
  shows "(currentStepIndex (fst (validation_effect lesson w)) = currentStepIndex w + 1 \<longleftrightarrow>
            sublist (filter (\<lambda>c. \<not> is_space c) (step_code (learnerSteps w ! currentStepIndex w)))
                    (filter (\<lambda>c. \<not> is_space c) (code w))) \<and>
         (\<not> sublist (filter (\<lambda>c. \<not> is_space c) (step_code (learnerSteps w ! currentStepIndex w)))
                    (filter (\<lambda>c. \<not> is_space c) (code w)) \<longrightarrow>
            currentStepIndex (fst (validation_effect lesson w)) = currentStepIndex w)"
  using assms
  by (simp add: validation_effect_index includes_str_sublist replace_ws_runs_filter)

theorem validation_advances_iff_contains_witness:
  "learnerModeActive (example_workspace ''h1 { color : red; }'' 0) \<and>
   currentStepIndex (example_workspace ''h1 { color : red; }'' 0) <
     length (learnerSteps (example_workspace ''h1 { color : red; }'' 0)) \<and>
   currentStepIndex (fst (validation_effect example_lesson (example_workspace ''h1 { color : red; }'' 0))) = 1 \<and>
   sublist ''color:red;'' ''h1{color:red;}''"
proof -
  let ?w = "example_workspace ''h1 { color : red; }'' 0"
  have a: "learnerModeActive ?w"
    by (simp add: example_defs)
  have b: "currentStepIndex ?w < length (learnerSteps ?w)"
    by (simp add: example_defs)
  have c: "currentStepIndex (fst (validation_effect example_lesson ?w)) = currentStepIndex ?w + 1"
    by (simp add: example_defs validation_effect_def string_defs)
  have i: "currentStepIndex ?w = 0"
    by (simp add: example_defs)
  have t: "filter (\<lambda>c. \<not> is_space c) (step_code (learnerSteps ?w ! currentStepIndex ?w)) = ''color:red;''"
    by (simp add: example_defs is_space_def)
  have u: "filter (\<lambda>c. \<not> is_space c) (code ?w) = ''h1{color:red;}''"
    by (simp add: example_defs is_space_def)
  from validation_advances_iff_contains [OF a b, of example_lesson] c
  have "sublist (filter (\<lambda>c. \<not> is_space c) (step_code (learnerSteps ?w ! currentStepIndex ?w)))
          (filter (\<lambda>c. \<not> is_space c) (code ?w))"
    by blast
  then have "sublist ''color:red;'' ''h1{color:red;}''"
    by (simp only: t u)
  moreover from c i have "currentStepIndex (fst (validation_effect example_lesson ?w)) = 1"
    by simp
  ultimately show ?thesis
    using a b by blast
qed

lemma evaluations_append_fst:
  "fst (evaluations lesson w (xs @ ys)) = fst (evaluations lesson (fst (evaluations lesson w xs)) ys)"
proof (induction xs arbitrary: w)
  case Nil
  show ?case by simp
next
  case (Cons b bs)
  show ?case
    by (simp only: append_Cons evaluations_Cons_fst Cons.IH)
qed

text \<open>
  C5. The step index never decreases: not in one evaluation, and not along any sequence
  of buffer changes (the index after a part of the sequence is at most the index after
  the whole of it), whatever the buffers are; the step list stays the same.
\<close>

theorem index_non_decreasing:
  "currentStepIndex w \<le> currentStepIndex (fst (validation_effect lesson w)) \<and>
   currentStepIndex (fst (evaluations lesson w xs)) \<le>
     currentStepIndex (fst (evaluations lesson w (xs @ ys))) \<and>
   learnerSteps (fst (evaluations lesson w (xs @ ys))) = learnerSteps w"
proof -
  have "currentStepIndex w \<le> currentStepIndex (fst (validation_effect lesson w))"
    by (simp add: validation_effect_index)
  moreover have "currentStepIndex (fst (evaluations lesson w xs)) \<le>
     currentStepIndex (fst (evaluations lesson w (xs @ ys)))"
    by (simp only: evaluations_append_fst evaluations_index_mono)
  moreover have "learnerSteps (fst (evaluations lesson w (xs @ ys))) = learnerSteps w"
    by (rule evaluations_steps)
  ultimately show ?thesis by blast
qed

theorem index_non_decreasing_witness:
  "currentStepIndex (fst (evaluations example_lesson (example_workspace [] 0) [''color: red;''])) = 1 \<and>
   currentStepIndex (fst (evaluations example_lesson (example_workspace [] 0) ([''color: red;''] @ [[]]))) = 1"
proof -
  let ?w = "example_workspace [] 0"
  have a: "currentStepIndex (fst (evaluations example_lesson ?w [''color: red;''])) = 1"
    by (simp add: example_defs validation_effect_def string_defs)
  have "currentStepIndex (fst (evaluations example_lesson ?w ([''color: red;''] @ [[]]))) \<le> 1"
    by (simp add: example_defs validation_effect_def string_defs)
  moreover from index_non_decreasing [of ?w example_lesson "[''color: red;'']" "[[]]"] a
  have "1 \<le> currentStepIndex (fst (evaluations example_lesson ?w ([''color: red;''] @ [[]])))"
    by (simp only:)
  ultimately have "currentStepIndex (fst (evaluations example_lesson ?w ([''color: red;''] @ [[]]))) = 1"
    by (rule order_antisym)
  with a show ?thesis by blast
qed

text \<open>
  C10. One evaluation raises the step index by at most one, also when the buffer
  already contains the code of several upcoming steps; a sequence of evaluations raises
  it by at most the number of evaluations.
\<close>

theorem at_most_one_step_per_evaluation:
  "(currentStepIndex (fst (validation_effect lesson w)) = currentStepIndex w \<or>
    currentStepIndex (fst (validation_effect lesson w)) = currentStepIndex w + 1) \<and>
   currentStepIndex (fst (evaluations lesson w bufs)) \<le> currentStepIndex w + length bufs"
proof -
  have "currentStepIndex (fst (validation_effect lesson w)) = currentStepIndex w \<or>
    currentStepIndex (fst (validation_effect lesson w)) = currentStepIndex w + 1"
    by (simp add: validation_effect_index)
  moreover have "currentStepIndex (fst (evaluations lesson w bufs)) \<le> currentStepIndex w + length bufs"
    by (rule evaluations_index_upper)
  ultimately show ?thesis by blast
qed

theorem at_most_one_step_per_evaluation_witness:
  "includes_str (replace_ws_runs (solutionCode example_lesson) []) (replace_ws_runs ''color: red;'' []) \<and>
   includes_str (replace_ws_runs (solutionCode example_lesson) []) (replace_ws_runs ''font-size: 2em;'' []) \<and>
   currentStepIndex (fst (validation_effect example_lesson
     (example_workspace (solutionCode example_lesson) 0))) = 1 \<and>
   currentStepIndex (fst (evaluations example_lesson (example_workspace [] 0)
     [solutionCode example_lesson])) = 1 \<and>
   currentStepIndex (fst (evaluations example_lesson (example_workspace [] 0)
     [solutionCode example_lesson, solutionCode example_lesson])) = 2"
proof -
  let ?b = "solutionCode example_lesson"
  let ?w = "example_workspace [] 0"
  have a: "includes_str (replace_ws_runs ?b []) (replace_ws_runs ''color: red;'' [])"
    by (simp add: example_defs string_defs)
  have b: "includes_str (replace_ws_runs ?b []) (replace_ws_runs ''font-size: 2em;'' [])"
    by (simp add: example_defs string_defs)
  have c: "currentStepIndex (fst (validation_effect example_lesson (example_workspace ?b 0))) \<noteq>
     currentStepIndex (example_workspace ?b 0)"
    by (simp add: example_defs validation_effect_def string_defs)
  from at_most_one_step_per_evaluation [of example_lesson "example_workspace ?b 0" "[]"] c
  have d: "currentStepIndex (fst (validation_effect example_lesson (example_workspace ?b 0))) =
     currentStepIndex (example_workspace ?b 0) + 1"
    by blast
  have i: "currentStepIndex (example_workspace ?b 0) = 0"
    by (simp add: example_workspace_def)
  have e: "currentStepIndex (fst (validation_effect example_lesson (example_workspace ?b 0))) = 1"
    by (simp only: d i)
  have f: "currentStepIndex (fst (evaluations example_lesson ?w [?b])) = 1"
    by (simp add: example_defs validation_effect_def string_defs)
  have g: "currentStepIndex (fst (evaluations example_lesson ?w [?b, ?b])) = 2"
    by (simp add: example_defs validation_effect_def string_defs)
  from a b e f g show ?thesis by blast
qed

text \<open>
  C6. In the terminal state (the index is the number of steps) an evaluation changes
  nothing and calls nothing, and so does every sequence of them. One evaluation calls
  \<open>onComplete\<close> exactly when it moves the index from below the number of steps to the
  number of steps, and a sequence of evaluations calls it once when it reaches the
  terminal state from below, and never otherwise.
\<close>

theorem terminal_stable_complete_once:
  "(currentStepIndex w = length (learnerSteps w) \<longrightarrow>
      validation_effect lesson w = (w, []) \<and>
      currentStepIndex (fst (evaluations lesson w bufs)) = currentStepIndex w \<and>
      snd (evaluations lesson w bufs) = []) \<and>
   snd (validation_effect lesson w) =
     (if currentStepIndex w < length (learnerSteps w) \<and>
         currentStepIndex (fst (validation_effect lesson w)) = length (learnerSteps w)
      then [OnComplete (lesson_id lesson) (code w)] else []) \<and>
   length (snd (evaluations lesson w bufs)) =
     (if currentStepIndex w < length (learnerSteps w) \<and>
         currentStepIndex (fst (evaluations lesson w bufs)) = length (learnerSteps w)
      then 1 else 0)"
proof -
  have "currentStepIndex w = length (learnerSteps w) \<longrightarrow>
      validation_effect lesson w = (w, []) \<and>
      currentStepIndex (fst (evaluations lesson w bufs)) = currentStepIndex w \<and>
      snd (evaluations lesson w bufs) = []"
    using validation_effect_terminal [of w lesson] evaluations_terminal [of w lesson bufs]
    by simp
  moreover note validation_effect_callbacks [of lesson w] evaluations_completions [of lesson w bufs]
  ultimately show ?thesis by blast
qed

theorem terminal_stable_complete_once_witness:
  "validation_effect example_lesson (example_workspace ''x'' 2) = (example_workspace ''x'' 2, []) \<and>
   snd (evaluations example_lesson (example_workspace ''x'' 2) [''color: red;'', []]) = [] \<and>
   currentStepIndex (fst (evaluations example_lesson (example_workspace [] 0)
     [''color: red;'', solutionCode example_lesson, ''font-size: 2em;'', []])) = 2 \<and>
   length (snd (evaluations example_lesson (example_workspace [] 0)
     [''color: red;'', solutionCode example_lesson, ''font-size: 2em;'', []])) = 1"
proof -
  let ?t = "example_workspace ''x'' 2"
  let ?w = "example_workspace [] 0"
  let ?bs = "[''color: red;'', solutionCode example_lesson, ''font-size: 2em;'', []]"
  have t: "currentStepIndex ?t = length (learnerSteps ?t)"
    by (simp add: example_defs)
  have s: "currentStepIndex ?w < length (learnerSteps ?w)"
    by (simp add: example_defs)
  have n: "length (learnerSteps ?w) = 2"
    by (simp add: example_defs)
  have e: "currentStepIndex (fst (evaluations example_lesson ?w ?bs)) = 2"
    by (simp add: example_defs validation_effect_def string_defs)
  from terminal_stable_complete_once [of ?t example_lesson "[''color: red;'', []]"] t
  have a: "validation_effect example_lesson ?t = (?t, []) \<and>
     snd (evaluations example_lesson ?t [''color: red;'', []]) = []"
    by blast
  from terminal_stable_complete_once [of ?w example_lesson ?bs] s e n
  have b: "length (snd (evaluations example_lesson ?w ?bs)) = 1"
    by (simp only: simp_thms if_True)
  from a b e show ?thesis by blast
qed

section \<open>The scroll target\<close>

lemma scrollTarget_nonneg: "0 \<le> scrollTarget line h"
  by (simp add: scrollTarget_def)

lemma scrollTarget_odd_height: "scrollTarget 20 601 = 407 / 2"
  by (simp add: scrollTarget_def LINE_HEIGHT_def)

text \<open>
  C8. The scroll offset is \<open>max(0, topPadding + lineIndex * lineHeight - viewportHeight / 2)\<close>
  for every line index and viewport height, with the line height \<open>LINE_HEIGHT = 24\<close> and
  the top padding 24 of the component; at line 10 and height 600 it is 0.
\<close>

theorem scrollTarget_formula:
  "LINE_HEIGHT = 24 \<and>
   scrollTarget lineIndex viewportHeight =
     max 0 (of_int 24 + of_int lineIndex * of_int LINE_HEIGHT - of_int viewportHeight / 2) \<and>
   scrollTarget 10 600 = 0"
  by (simp add: scrollTarget_def LINE_HEIGHT_def)

section \<open>The fallback of the step source\<close>

lemma split_no_separator: "d \<notin> set l \<Longrightarrow> split l d = [l]"
  by (induction l) auto

lemma split_first_line: "d \<notin> set l \<Longrightarrow> split (l @ d # r) d = l # split r d"
  by (induction l) auto

lemma split_lines_free: "l \<in> set (split s d) \<Longrightarrow> d \<notin> set l"
  by (induction s arbitrary: l) (auto split: if_splits list.splits)

text \<open>
  C9. When the request or the parsing of its answer throws, \<open>generateLearnerSteps\<close>
  still returns: one step for every line of the solution code whose trimmed text is not
  empty, in the order of the lines, with the line as its code, the explanation
  \<open>Type this line.\<close> and no context.
\<close>

theorem generateLearnerSteps_fallback:
  "\<exists>steps. generateLearnerSteps solution (Inl e) = Inr steps \<and>
     map step_code steps = filter (\<lambda>l. trim l \<noteq> []) (split solution newline) \<and>
     map step_explanation steps = replicate (length steps) ''Type this line.'' \<and>
     map step_context steps = replicate (length steps) None"
proof -
  let ?ls = "filter (\<lambda>l. trim l \<noteq> []) (split solution newline)"
  let ?steps = "map (\<lambda>l. \<lparr>step_code = l, step_explanation = ''Type this line.'',
                          step_context = None\<rparr>) ?ls"
  have "generateLearnerSteps solution (Inl e) = Inr ?steps"
    by (simp add: generateLearnerSteps_def)
  moreover have "map step_code ?steps = ?ls"
    by (simp add: comp_def)
  moreover have "map step_explanation ?steps = replicate (length ?steps) ''Type this line.''"
    by (simp add: comp_def map_replicate_const)
  moreover have "map step_context ?steps = replicate (length ?steps) None"
    by (simp add: comp_def map_replicate_const)
  ultimately show ?thesis by blast
qed

theorem generateLearnerSteps_fallback_witness:
  "generateLearnerSteps ''<h1>\<newline>\<newline>  Hi\<newline>  </h1>\<newline>   '' (Inl (Error ''quota'')) =
     Inr [\<lparr>step_code = ''<h1>'', step_explanation = ''Type this line.'', step_context = None\<rparr>,
          \<lparr>step_code = ''  Hi'', step_explanation = ''Type this line.'', step_context = None\<rparr>,
          \<lparr>step_code = ''  </h1>'', step_explanation = ''Type this line.'', step_context = None\<rparr>]"
proof -
  let ?s = "''<h1>\<newline>\<newline>  Hi\<newline>  </h1>\<newline>   ''"
  have l: "filter (\<lambda>l. trim l \<noteq> []) (split ?s newline) = [''<h1>'', ''  Hi'', ''  </h1>'']"
    by (simp add: newline_def trim_def is_space_def)
  from generateLearnerSteps_fallback [of ?s "Error ''quota''"]
  obtain steps where r: "generateLearnerSteps ?s (Inl (Error ''quota'')) = Inr steps"
    and c: "map step_code steps = filter (\<lambda>l. trim l \<noteq> []) (split ?s newline)"
    and x: "map step_explanation steps = replicate (length steps) ''Type this line.''"
    and k: "map step_context steps = replicate (length steps) None"
    by blast
  from c l have c': "map step_code steps = [''<h1>'', ''  Hi'', ''  </h1>'']"
    by (simp only:)
  then have n: "length steps = 3"
    by (metis length_map length_Cons list.size(3) numeral_3_eq_3)
  from c' x k n have "steps =
     [\<lparr>step_code = ''<h1>'', step_explanation = ''Type this line.'', step_context = None\<rparr>,
      \<lparr>step_code = ''  Hi'', step_explanation = ''Type this line.'', step_context = None\<rparr>,
      \<lparr>step_code = ''  </h1>'', step_explanation = ''Type this line.'', step_context = None\<rparr>]"
    by (auto simp: length_Suc_conv numeral_3_eq_3)
  with r show ?thesis by (simp only:)
qed

section \<open>The insertion locator\<close>

lemma slice_from_start: "slice buf 0 (int k) = take k buf"
  by (simp add: slice_def min_def)

lemma lines_count: "int (length (split s newline)) = int (count_list s newline) + 1"
  by (simp add: length_split)

lemma indexOf_range: "indexOf buf t = - 1 \<or> (0 \<le> indexOf buf t \<and> indexOf buf t \<le> int (length buf))"
  using indexOf_from_range [of buf t 0] by (simp add: indexOf_def)

lemma indexOf_leftmost:
  "indexOf buf t = int i \<longleftrightarrow>
     i \<le> length buf \<and> prefix t (drop i buf) \<and> (\<forall>j<i. \<not> prefix t (drop j buf))"
  using indexOf_from_leftmost [of buf t 0 i] by (simp add: indexOf_def)

lemma insertionLine_empty: "insertionLine [] step = 0"
  by (simp add: insertionLine_def)

lemma insertionLine_context:
  assumes "buf \<noteq> []" and "step_context step = Some ctx" and "ctx \<noteq> []"
    and "indexOf buf (trim ctx) = int idx"
  shows "insertionLine buf step = int (count_list (take (idx + length ctx) buf) newline) + 1"
proof -
  have "slice buf 0 (int idx + int (length ctx)) = take (idx + length ctx) buf"
    using slice_from_start [of buf "idx + length ctx"] by simp
  with assms show ?thesis
    by (simp add: insertionLine_def Let_def lines_count)
qed

lemma insertionLine_marker:
  assumes "buf \<noteq> []"
    and "case step_context step of None \<Rightarrow> True
         | Some ctx \<Rightarrow> ctx = [] \<or> indexOf buf (trim ctx) = - 1"
    and "indexOf buf ''<!-- Write code here -->'' = int idx"
  shows "insertionLine buf step = int (count_list (take idx buf) newline)"
  using assms
  by (auto simp: insertionLine_def Let_def lines_count slice_from_start split: option.splits)

lemma insertionLine_default:
  assumes "buf \<noteq> []"
    and "case step_context step of None \<Rightarrow> True
         | Some ctx \<Rightarrow> ctx = [] \<or> indexOf buf (trim ctx) = - 1"
    and "indexOf buf ''<!-- Write code here -->'' = - 1"
  shows "insertionLine buf step = int (length (split buf newline))"
  using assms
  by (auto simp: insertionLine_def Let_def split: option.splits)

lemma insertionLine_nonneg: "0 \<le> insertionLine buf step"
proof (cases "buf = []")
  case True
  then show ?thesis by (simp add: insertionLine_def)
next
  case False
  have "0 \<le> int (length (split s newline)) - 1" for s
    by (simp add: length_split)
  with False show ?thesis
    by (simp add: insertionLine_def Let_def split: option.splits)
qed

text \<open>
  The context is searched for trimmed, but the buffer is cut at the offset plus the
  length of the context as given. A context with white space around it (an indented
  line) therefore cuts the buffer too far to the right, here into the next line: the
  anchor ends in line 0 and the locator returns 2, not 1.
\<close>

lemma insertionLine_untrimmed_length:
  "insertionLine ''  <div>\<newline>    <p>''
     \<lparr>step_code = ''</p>'', step_explanation = ''e'', step_context = Some ''  <div>''\<rparr> = 2"
  by (simp add: insertionLine_def string_defs)

text \<open>
  C4, as the code has it. The empty buffer gives 0. For a buffer that is not empty: a
  context that is not empty, has no white space around it and occurs in the buffer
  leftmost at \<open>idx\<close> gives one more than the number of newlines in the buffer up to the
  end of that occurrence (the line after the one the anchor ends in); when the context
  is missing, empty or (trimmed) not in the buffer and the marker occurs leftmost at
  \<open>idx\<close>, the result is the number of newlines before \<open>idx\<close>; otherwise it is the number
  of lines of the buffer.
\<close>

theorem insertionLine_cases:
  "insertionLine [] step = 0 \<and>
   (buf \<noteq> [] \<and> step_context step = Some ctx \<and> ctx \<noteq> [] \<and> trim ctx = ctx \<and>
    indexOf buf ctx = int idx \<longrightarrow>
      insertionLine buf step = int (count_list (take (idx + length ctx) buf) newline) + 1) \<and>
   (buf \<noteq> [] \<and>
    (case step_context step of None \<Rightarrow> True
     | Some c \<Rightarrow> c = [] \<or> indexOf buf (trim c) = - 1) \<and>
    indexOf buf ''<!-- Write code here -->'' = int idx \<longrightarrow>
      insertionLine buf step = int (count_list (take idx buf) newline)) \<and>
   (buf \<noteq> [] \<and>
    (case step_context step of None \<Rightarrow> True
     | Some c \<Rightarrow> c = [] \<or> indexOf buf (trim c) = - 1) \<and>
    indexOf buf ''<!-- Write code here -->'' = - 1 \<longrightarrow>
      insertionLine buf step = int (length (split buf newline)) \<and>
      insertionLine buf step = int (count_list buf newline) + 1)"
proof -
  have "buf \<noteq> [] \<and> step_context step = Some ctx \<and> ctx \<noteq> [] \<and> trim ctx = ctx \<and>
    indexOf buf ctx = int idx \<longrightarrow>
      insertionLine buf step = int (count_list (take (idx + length ctx) buf) newline) + 1"
    using insertionLine_context [of buf step ctx idx] by simp
  moreover have "buf \<noteq> [] \<and>
    (case step_context step of None \<Rightarrow> True
     | Some c \<Rightarrow> c = [] \<or> indexOf buf (trim c) = - 1) \<and>
    indexOf buf ''<!-- Write code here -->'' = int idx \<longrightarrow>
      insertionLine buf step = int (count_list (take idx buf) newline)"
    using insertionLine_marker [of buf step idx] by blast
  moreover have "buf \<noteq> [] \<and>
    (case step_context step of None \<Rightarrow> True
     | Some c \<Rightarrow> c = [] \<or> indexOf buf (trim c) = - 1) \<and>
    indexOf buf ''<!-- Write code here -->'' = - 1 \<longrightarrow>
      insertionLine buf step = int (length (split buf newline)) \<and>
      insertionLine buf step = int (count_list buf newline) + 1"
    using insertionLine_default [of buf step] lines_count [of buf] by simp
  ultimately show ?thesis
    using insertionLine_empty [of step] by blast
qed

theorem insertionLine_cases_witness:
  "insertionLine ''<body>\<newline><div>\<newline></div>\<newline></body>''
     \<lparr>step_code = ''<p>'', step_explanation = ''e'', step_context = Some ''<div>''\<rparr> = 2 \<and>
   insertionLine ''<body>\<newline>  <!-- Write code here -->\<newline></body>''
     \<lparr>step_code = ''<p>'', step_explanation = ''e'', step_context = None\<rparr> = 1 \<and>
   insertionLine ''<body>\<newline></body>''
     \<lparr>step_code = ''<p>'', step_explanation = ''e'', step_context = Some ''<div>''\<rparr> = 2"
proof -
  let ?b1 = "''<body>\<newline><div>\<newline></div>\<newline></body>''"
  let ?s1 = "\<lparr>step_code = ''<p>'', step_explanation = ''e'', step_context = Some ''<div>''\<rparr>"
  let ?b2 = "''<body>\<newline>  <!-- Write code here -->\<newline></body>''"
  let ?s2 = "\<lparr>step_code = ''<p>'', step_explanation = ''e'', step_context = None\<rparr>"
  let ?b3 = "''<body>\<newline></body>''"
  have h1: "?b1 \<noteq> [] \<and> step_context ?s1 = Some ''<div>'' \<and> ''<div>'' \<noteq> [] \<and>
     trim ''<div>'' = ''<div>'' \<and> indexOf ?b1 ''<div>'' = int 7"
    by (simp add: string_defs)
  have c1: "int (count_list (take (7 + length ''<div>'') ?b1) newline) + 1 = 2"
    by (simp add: newline_def)
  have h2: "?b2 \<noteq> [] \<and>
     (case step_context ?s2 of None \<Rightarrow> True | Some c \<Rightarrow> c = [] \<or> indexOf ?b2 (trim c) = - 1) \<and>
     indexOf ?b2 ''<!-- Write code here -->'' = int 9"
    by (simp add: string_defs)
  have c2: "int (count_list (take 9 ?b2) newline) = 1"
    by (simp add: newline_def)
  have h3: "?b3 \<noteq> [] \<and>
     (case step_context ?s1 of None \<Rightarrow> True | Some c \<Rightarrow> c = [] \<or> indexOf ?b3 (trim c) = - 1) \<and>
     indexOf ?b3 ''<!-- Write code here -->'' = - 1"
    by (simp add: string_defs)
  have c3: "int (count_list ?b3 newline) + 1 = 2"
    by (simp add: newline_def)
  from insertionLine_cases [of ?s1 ?b1 "''<div>''" 7] h1
  have "insertionLine ?b1 ?s1 = int (count_list (take (7 + length ''<div>'') ?b1) newline) + 1"
    by blast
  with c1 have r1: "insertionLine ?b1 ?s1 = 2"
    by (simp only:)
  from insertionLine_cases [of ?s2 ?b2 "''<div>''" 9] h2
  have "insertionLine ?b2 ?s2 = int (count_list (take 9 ?b2) newline)"
    by blast
  with c2 have r2: "insertionLine ?b2 ?s2 = 1"
    by (simp only:)
  from insertionLine_cases [of ?s1 ?b3 "''<div>''" 0] h3
  have "insertionLine ?b3 ?s1 = int (count_list ?b3 newline) + 1"
    by blast
  with c3 have r3: "insertionLine ?b3 ?s1 = 2"
    by (simp only:)
  from r1 r2 r3 show ?thesis by blast
qed

text \<open>
  The claim as the specification words it fails in the context branch: the context
  \<open><div>\<close> occurs at offset 7, the buffer up to the end of the occurrence holds one
  newline, and the locator returns 2.
\<close>

theorem insertionLine_context_counterexample:
  "step_context \<lparr>step_code = ''<p>'', step_explanation = ''e'', step_context = Some ''<div>''\<rparr> =
     Some ''<div>'' \<and>
   indexOf ''<body>\<newline><div>\<newline></div>\<newline></body>'' (trim ''<div>'') = 7 \<and>
   int (count_list (slice ''<body>\<newline><div>\<newline></div>\<newline></body>'' 0 (7 + int (length (trim ''<div>''))))
     newline) = 1 \<and>
   insertionLine ''<body>\<newline><div>\<newline></div>\<newline></body>''
     \<lparr>step_code = ''<p>'', step_explanation = ''e'', step_context = Some ''<div>''\<rparr> = 2 \<and>
   insertionLine ''<body>\<newline><div>\<newline></div>\<newline></body>''
     \<lparr>step_code = ''<p>'', step_explanation = ''e'', step_context = Some ''<div>''\<rparr> \<noteq>
   int (count_list (slice ''<body>\<newline><div>\<newline></div>\<newline></body>'' 0
     (indexOf ''<body>\<newline><div>\<newline></div>\<newline></body>'' (trim ''<div>'') +
      int (length (trim ''<div>'')))) newline)"
  by (simp add: insertionLine_def string_defs)

text \<open>
  C7. The locator has a value for every buffer and step, and the value is never
  negative; it is 0 for the empty buffer; with a current step
  \<open>getInsertionLineIndex\<close> is not \<open>null\<close>. The search it uses for both anchors,
  \<open>indexOf\<close>, is the leftmost literal search: it gives \<open>-1\<close> exactly when the text does
  not occur in the buffer, and \<open>i\<close> exactly when the text occurs at \<open>i\<close> and at no
  smaller position.
\<close>

theorem insertionLine_total:
  "0 \<le> insertionLine buf step \<and>
   insertionLine [] step = 0 \<and>
   (currentStepIndex w < length (learnerSteps w) \<longrightarrow>
      (\<exists>n. getInsertionLineIndex w = Some n \<and> 0 \<le> n)) \<and>
   (indexOf buf t = - 1 \<longleftrightarrow> \<not> sublist t buf) \<and>
   (indexOf buf t = - 1 \<or> (0 \<le> indexOf buf t \<and> indexOf buf t \<le> int (length buf))) \<and>
   (indexOf buf t = int i \<longleftrightarrow>
      i \<le> length buf \<and> prefix t (drop i buf) \<and> (\<forall>j<i. \<not> prefix t (drop j buf)))"
proof -
  have "currentStepIndex w < length (learnerSteps w) \<longrightarrow>
      (\<exists>n. getInsertionLineIndex w = Some n \<and> 0 \<le> n)"
    by (simp add: getInsertionLineIndex_def insertionLine_nonneg)
  moreover have "indexOf buf t = - 1 \<longleftrightarrow> \<not> sublist t buf"
    using indexOf_from_sublist [of buf t 0] unfolding indexOf_def by blast
  moreover note insertionLine_nonneg [of buf step] insertionLine_empty [of step]
    indexOf_range [of buf t] indexOf_leftmost [of buf t i]
  ultimately show ?thesis by blast
qed

theorem insertionLine_total_witness:
  "currentStepIndex (example_workspace ''color: blue; color: red; color: red;'' 1) <
     length (learnerSteps (example_workspace ''color: blue; color: red; color: red;'' 1)) \<and>
   getInsertionLineIndex (example_workspace ''color: blue; color: red; color: red;'' 1) = Some 1 \<and>
   indexOf ''color: blue; color: red; color: red;'' ''color: red;'' = 13 \<and>
   prefix ''color: red;'' (drop 13 ''color: blue; color: red; color: red;'') \<and>
   prefix ''color: red;'' (drop 25 ''color: blue; color: red; color: red;'') \<and>
   \<not> prefix ''color: red;'' (drop 0 ''color: blue; color: red; color: red;'')"
proof -
  let ?b = "''color: blue; color: red; color: red;''"
  let ?w = "example_workspace ?b 1"
  have a: "currentStepIndex ?w < length (learnerSteps ?w)"
    by (simp add: example_defs)
  have b: "getInsertionLineIndex ?w = Some 1"
    by (simp add: getInsertionLineIndex_def insertionLine_def example_defs string_defs)
  have c: "indexOf ?b ''color: red;'' = int 13"
    by (simp add: string_defs)
  have d: "prefix ''color: red;'' (drop 25 ?b)"
    by simp
  from insertionLine_total [of ?b "learnerSteps ?w ! 1" ?w "''color: red;''" 13] c
  have e: "prefix ''color: red;'' (drop 13 ?b) \<and> (\<forall>j<13. \<not> prefix ''color: red;'' (drop j ?b))"
    by blast
  then have "\<not> prefix ''color: red;'' (drop 0 ?b)"
    by (meson zero_less_numeral)
  with a b c d e show ?thesis by simp
qed

end
